theory Spec2Isabelle
  imports Complex_Main "HOL-Library.Word"
begin

unbundle bit_operations_syntax

section \<open>Bytes, errors and the bufio reader and writer\<close>

text \<open>
  The class \<open>Claim\<close> of \<open>lib/primitives/claim.js\<close> extends \<open>bufio.Struct\<close>. A
  \<open>Buffer\<close> is a list of bytes. Every \<open>throw\<close> and every failed \<open>assert\<close> is a value of
  \<open>error\<close>; a method that can throw returns \<open>error + 'a\<close> with \<open>Inl\<close> the error.
\<close>

type_synonym byte = "8 word"
type_synonym bytes = "byte list"

datatype error =
    InvalidClaimSize      \<comment> \<open>\<open>new Error('Invalid claim size.')\<close> of \<open>Claim.read\<close>\<close>
  | AssertionError        \<comment> \<open>a failed \<open>assert(...)\<close>\<close>
  | OutOfBoundsRead       \<comment> \<open>bufio's \<open>EncodingError\<close>: out of bounds read\<close>
  | NonCanonicalVarint    \<comment> \<open>bufio's \<open>EncodingError\<close>: non-canonical varint\<close>
  | NumberTooLarge        \<comment> \<open>bufio's \<open>EncodingError\<close>: number exceeds 2^53-1\<close>
  | ProofDecodeError      \<comment> \<open>whatever \<open>OwnershipProof.decode\<close> throws\<close>

text \<open>
  Modelled from the spec: the package \<open>bufio\<close> (\<open>BufferReader\<close>, \<open>BufferWriter\<close>,
  \<open>sizeVarBytes\<close>, \<open>Struct.encode\<close>, \<open>Struct.decode\<close>) is a dependency whose code is not
  part of the sources. The spec fixes the wire format as \<open>varint(len) || bytes[len]\<close> with a
  compact variable-length integer, smallest encoding for the value, no padding: one byte
  below \<open>0xfd\<close>, else a tag byte \<open>0xfd\<close>, \<open>0xfe\<close> or \<open>0xff\<close> followed by the value in 2, 4 or
  8 little-endian bytes. The reader refuses an encoding that is not the smallest one and a
  read past the end of its buffer, and leaves its offset where it was when it throws.
\<close>

fun writeUIntLE :: "nat \<Rightarrow> nat \<Rightarrow> bytes" where
  "writeUIntLE 0 n = []"
| "writeUIntLE (Suc k) n = of_nat (n mod 256) # writeUIntLE k (n div 256)"

fun readUIntLE :: "bytes \<Rightarrow> nat" where
  "readUIntLE [] = 0"
| "readUIntLE (b # bs) = unat b + 256 * readUIntLE bs"

definition sizeVarint :: "nat \<Rightarrow> nat" where
  "sizeVarint n =
     (if n < 0xfd then 1 else if n \<le> 0xffff then 3 else if n \<le> 0xffffffff then 5 else 9)"

definition writeVarint :: "nat \<Rightarrow> bytes" where
  "writeVarint n =
     (if n < 0xfd then [of_nat n]
      else if n \<le> 0xffff then 0xfd # writeUIntLE 2 n
      else if n \<le> 0xffffffff then 0xfe # writeUIntLE 4 n
      else 0xff # writeUIntLE 8 n)"

text \<open>\<open>bio.sizeVarBytes(buf)\<close> and \<open>bw.writeVarBytes(buf)\<close>; a writer is the bytes written so far.\<close>

definition sizeVarBytes :: "bytes \<Rightarrow> nat" where
  "sizeVarBytes buf = sizeVarint (length buf) + length buf"

definition writeVarBytes :: "bytes \<Rightarrow> bytes \<Rightarrow> bytes" where
  "writeVarBytes bw buf = bw @ writeVarint (length buf) @ buf"

record BufferReader =
  br_data :: bytes
  br_offset :: nat

definition newBufferReader :: "bytes \<Rightarrow> BufferReader" where
  "newBufferReader d = \<lparr>br_data = d, br_offset = 0\<rparr>"

text \<open>The \<open>k\<close> bytes that follow the tag byte at the reader's offset.\<close>

definition peekAfterTag :: "BufferReader \<Rightarrow> nat \<Rightarrow> bytes" where
  "peekAfterTag br k = take k (drop (br_offset br + 1) (br_data br))"

definition readVarint :: "BufferReader \<Rightarrow> (error + nat) \<times> BufferReader" where
  "readVarint br =
     (let d = br_data br; off = br_offset br in
      if \<not> off < length d then (Inl OutOfBoundsRead, br)
      else if d ! off = 0xff then
        (if \<not> off + 9 \<le> length d then (Inl OutOfBoundsRead, br)
         else let v = readUIntLE (peekAfterTag br 8) in
           if \<not> v < 2 ^ 53 then (Inl NumberTooLarge, br)
           else if \<not> v > 0xffffffff then (Inl NonCanonicalVarint, br)
           else (Inr v, br\<lparr>br_offset := off + 9\<rparr>))
      else if d ! off = 0xfe then
        (if \<not> off + 5 \<le> length d then (Inl OutOfBoundsRead, br)
         else let v = readUIntLE (peekAfterTag br 4) in
           if \<not> v > 0xffff then (Inl NonCanonicalVarint, br)
           else (Inr v, br\<lparr>br_offset := off + 5\<rparr>))
      else if d ! off = 0xfd then
        (if \<not> off + 3 \<le> length d then (Inl OutOfBoundsRead, br)
         else let v = readUIntLE (peekAfterTag br 2) in
           if \<not> v \<ge> 0xfd then (Inl NonCanonicalVarint, br)
           else (Inr v, br\<lparr>br_offset := off + 3\<rparr>))
      else (Inr (unat (d ! off)), br\<lparr>br_offset := off + 1\<rparr>))"

definition readBytes :: "nat \<Rightarrow> BufferReader \<Rightarrow> (error + bytes) \<times> BufferReader" where
  "readBytes sz br =
     (if br_offset br + sz > length (br_data br) then (Inl OutOfBoundsRead, br)
      else (Inr (take sz (drop (br_offset br) (br_data br))),
            br\<lparr>br_offset := br_offset br + sz\<rparr>))"

section \<open>Proof data and the claim record\<close>

text \<open>
  Modelled from the spec: \<open>ProofData\<close> is what \<open>OwnershipProof.getData\<close> of
  \<open>lib/covenants/ownership.js\<close> returns; that file is not part of the sources. The fields are the
  ones \<open>claim.js\<close> reads: \<open>nameHash\<close>, \<open>nameRaw\<close>, \<open>version\<close>, \<open>hash\<close>, \<open>value\<close>, \<open>fee\<close>,
  \<open>weak\<close>, \<open>forked\<close>. Amounts are integers in the smallest unit.
\<close>

record ProofData =
  nameHash :: bytes
  nameRaw :: bytes
  data_version :: nat
  data_hash :: bytes
  data_value :: int
  fee :: int
  weak :: bool
  forked :: bool

text \<open>
  The fields of a \<open>Claim\<close>: \<open>blob\<close>, and the caches \<open>_hash\<close>, \<open>_hhash\<close> and \<open>_data\<close>
  (\<open>null\<close> is \<open>None\<close>), here \<open>cache_hash\<close>, \<open>cache_hhash\<close> and \<open>cache_data\<close>.
\<close>

record Claim =
  blob :: bytes
  cache_hash :: "bytes option"
  cache_hhash :: "string option"
  cache_data :: "ProofData option"

text \<open>The constructor: \<open>blob = EMPTY\<close> and the three caches \<open>null\<close>.\<close>

definition newClaim :: Claim where
  "newClaim = \<lparr>blob = [], cache_hash = None, cache_hhash = None, cache_data = None\<rparr>"

definition refresh :: "Claim \<Rightarrow> Claim" where
  "refresh c = c\<lparr>cache_hash := None, cache_hhash := None, cache_data := None\<rparr>"

section \<open>The codec: getSize, write, read\<close>

definition getSize :: "Claim \<Rightarrow> nat" where
  "getSize c = sizeVarBytes (blob c)"

text \<open>\<open>write(bw)\<close>, named \<open>write_claim\<close> since \<open>write\<close> is a keyword of Isabelle.\<close>

definition write_claim :: "Claim \<Rightarrow> bytes \<Rightarrow> bytes" where
  "write_claim c bw = writeVarBytes bw (blob c)"

text \<open>
  \<open>read(br)\<close> mutates \<open>this\<close> and the reader, and may throw: the result is the outcome
  (\<open>Inr ()\<close> for \<open>return this\<close>), the claim and the reader as they are afterwards.
\<close>

definition read :: "Claim \<Rightarrow> BufferReader \<Rightarrow> (error + unit) \<times> Claim \<times> BufferReader" where
  "read c br =
     (case readVarint br of
        (Inl e, br1) \<Rightarrow> (Inl e, c, br1)
      | (Inr sz, br1) \<Rightarrow>
          if sz > 10000 then (Inl InvalidClaimSize, c, br1)
          else (case readBytes sz br1 of
                  (Inl e, br2) \<Rightarrow> (Inl e, c, br2)
                | (Inr bs, br2) \<Rightarrow> (Inr (), c\<lparr>blob := bs\<rparr>, br2)))"

text \<open>
  \<open>Struct.encode()\<close> writes \<open>this\<close> into a fresh writer; the static \<open>Struct.decode(data)\<close> is
  \<open>new this().read(new BufferReader(data))\<close>.
\<close>

definition encode :: "Claim \<Rightarrow> bytes" where
  "encode c = write_claim c []"

definition decode :: "bytes \<Rightarrow> error + Claim" where
  "decode d =
     (case read newClaim (newBufferReader d) of
        (Inl e, c, br) \<Rightarrow> Inl e
      | (Inr u, c, br) \<Rightarrow> Inr c)"

section \<open>Identity: hash\<close>

text \<open>
  \<open>blake2b.digest\<close> belongs to the package \<open>bcrypto\<close>, a dependency outside the sources: the
  digest is a parameter \<open>digest\<close> of \<open>hash\<close>. \<open>Buffer.toString('hex')\<close> writes every byte as
  two lower-case hexadecimal digits.
\<close>

definition hexDigit :: "nat \<Rightarrow> char" where
  "hexDigit n = ''0123456789abcdef'' ! n"

definition toHex :: "bytes \<Rightarrow> string" where
  "toHex bs = concat (map (\<lambda>b. [hexDigit (unat b div 16), hexDigit (unat b mod 16)]) bs)"

text \<open>\<open>hash(enc)\<close> returns a \<open>Buffer\<close>, or a string when \<open>enc === 'hex'\<close>.\<close>

datatype hashval = Bin bytes | HexStr string

text \<open>
  \<open>!h\<close> holds of \<open>null\<close> only (a \<open>Buffer\<close> is an object); \<open>!hex\<close> holds of \<open>null\<close> and of the
  empty string. \<open>enc\<close> is \<open>None\<close> for a call without argument. The method assigns
  \<open>this._hhash\<close> and nothing else.
\<close>

definition hash :: "(bytes \<Rightarrow> bytes) \<Rightarrow> string option \<Rightarrow> Claim \<Rightarrow> hashval \<times> Claim" where
  "hash digest enc c =
     (let h = (case cache_hash c of None \<Rightarrow> digest (blob c) | Some h0 \<Rightarrow> h0) in
      if enc = Some ''hex'' then
        (case cache_hhash c of
           None \<Rightarrow> (HexStr (toHex h), c\<lparr>cache_hhash := Some (toHex h)\<rparr>)
         | Some hex \<Rightarrow>
             if hex = [] then (HexStr (toHex h), c\<lparr>cache_hhash := Some (toHex h)\<rparr>)
             else (HexStr hex, c))
      else (Bin h, c))"

section \<open>Proof accessors\<close>

text \<open>
  The class \<open>OwnershipProof\<close> of \<open>lib/covenants/ownership.js\<close> is not part of the sources. What
  \<open>claim.js\<close> uses of it is a parameter: the static \<open>decode\<close> (which may throw), the
  constructor \<open>new OwnershipProof()\<close>, and the methods \<open>getData(network)\<close> (which may
  return \<open>null\<close>) and \<open>encode()\<close>. \<open>'p\<close> is the type of proofs, \<open>'n\<close> of networks.
\<close>

record ('p, 'n) ownership =
  op_decode :: "bytes \<Rightarrow> error + 'p"
  op_new :: 'p
  op_getData :: "'p \<Rightarrow> 'n \<Rightarrow> ProofData option"
  op_encode :: "'p \<Rightarrow> bytes"

definition toProof :: "('p, 'n) ownership \<Rightarrow> Claim \<Rightarrow> error + 'p" where
  "toProof own c = op_decode own (blob c)"

text \<open>\<open>try { return this.toProof(); } catch (e) { return new OwnershipProof(); }\<close>\<close>

definition getProof :: "('p, 'n) ownership \<Rightarrow> Claim \<Rightarrow> 'p" where
  "getProof own c = (case toProof own c of Inl e \<Rightarrow> op_new own | Inr p \<Rightarrow> p)"

text \<open>
  \<open>getData(network)\<close>. \<open>getProof()\<close> always returns an object, so the branch
  \<open>if (!proof) return null\<close> is never taken.
\<close>

definition getData :: "('p, 'n) ownership \<Rightarrow> 'n \<Rightarrow> Claim \<Rightarrow> ProofData option \<times> Claim" where
  "getData own network c =
     (case cache_data c of
        Some d \<Rightarrow> (Some d, c)
      | None \<Rightarrow>
          (case op_getData own (getProof own c) network of
             None \<Rightarrow> (None, c)
           | Some d \<Rightarrow> (Some d, c\<lparr>cache_data := Some d\<rparr>)))"

definition getNameHash :: "('p, 'n) ownership \<Rightarrow> 'n \<Rightarrow> Claim \<Rightarrow> bytes option \<times> Claim" where
  "getNameHash own network c =
     (case getData own network c of
        (None, c') \<Rightarrow> (None, c')
      | (Some d, c') \<Rightarrow> (Some (nameHash d), c'))"

definition toBlob :: "Claim \<Rightarrow> bytes" where
  "toBlob c = blob c"

text \<open>
  \<open>fromBlob\<close> and \<open>fromProof\<close> assign \<open>this.blob\<close> and nothing else; their assertions hold
  by the types. The static methods call them on \<open>new this()\<close>.
\<close>

definition fromBlob :: "Claim \<Rightarrow> bytes \<Rightarrow> Claim" where
  "fromBlob c b = c\<lparr>blob := b\<rparr>"

definition fromProof :: "('p, 'n) ownership \<Rightarrow> Claim \<Rightarrow> 'p \<Rightarrow> Claim" where
  "fromProof own c p = c\<lparr>blob := op_encode own p\<rparr>"

definition static_fromBlob :: "bytes \<Rightarrow> Claim" where
  "static_fromBlob b = fromBlob newClaim b"

definition static_fromProof :: "('p, 'n) ownership \<Rightarrow> 'p \<Rightarrow> Claim" where
  "static_fromProof own p = fromProof own newClaim p"

section \<open>Weight, virtual size and fee\<close>

text \<open>
  Sizes are integers far below \<open>2^53\<close>, which JavaScript numbers hold exactly.
  \<open>x | 0\<close> wraps an integer to 32 signed bits. \<open>a / b | 0\<close> on integers is the quotient
  truncated towards zero and then wrapped; a division by zero gives an infinity or
  \<open>NaN\<close>, which \<open>| 0\<close> turns into 0.
\<close>

definition toInt32 :: "int \<Rightarrow> int" where
  "toInt32 x = (x + 2 ^ 31) mod 2 ^ 32 - 2 ^ 31"

definition quotInt32 :: "int \<Rightarrow> int \<Rightarrow> int" where
  "quotInt32 a b = (if b = 0 then 0 else toInt32 (sgn a * sgn b * (\<bar>a\<bar> div \<bar>b\<bar>)))"

definition getWeight :: "Claim \<Rightarrow> nat" where
  "getWeight c = getSize c"

text \<open>
  \<open>consensus.WITNESS_SCALE_FACTOR\<close> (\<open>lib/protocol/consensus.js\<close>, not part of the sources) is the
  parameter \<open>scale\<close>.
\<close>

definition getVirtualSize :: "int \<Rightarrow> Claim \<Rightarrow> int" where
  "getVirtualSize scale c = quotInt32 (int (getWeight c) + scale - 1) scale"

definition getFee :: "('p, 'n) ownership \<Rightarrow> 'n \<Rightarrow> Claim \<Rightarrow> (error + int) \<times> Claim" where
  "getFee own network c =
     (case getData own network c of
        (None, c') \<Rightarrow> (Inl AssertionError, c')
      | (Some d, c') \<Rightarrow> (Inr (fee d), c'))"

text \<open>
  \<open>policy.getMinFee\<close> and \<open>policy.getRate\<close> (\<open>lib/protocol/policy.js\<close>, not part of the
  sources) are parameters. \<open>size == null\<close> holds of a missing argument, here \<open>None\<close>.
\<close>

definition getMinFee :: "(int \<Rightarrow> int \<Rightarrow> int) \<Rightarrow> int \<Rightarrow> int option \<Rightarrow> int \<Rightarrow> Claim \<Rightarrow> int" where
  "getMinFee policy_getMinFee scale sz rate c =
     policy_getMinFee (case sz of None \<Rightarrow> getVirtualSize scale c | Some s \<Rightarrow> s) rate"

definition getRate ::
  "('p, 'n) ownership \<Rightarrow> (int \<Rightarrow> int \<Rightarrow> int) \<Rightarrow> int \<Rightarrow> int option \<Rightarrow> 'n \<Rightarrow> Claim \<Rightarrow>
     (error + int) \<times> Claim" where
  "getRate own policy_getRate scale sz network c =
     (case getFee own network c of
        (Inl e, c') \<Rightarrow> (Inl e, c')
      | (Inr f, c') \<Rightarrow>
          (Inr (policy_getRate (case sz of None \<Rightarrow> getVirtualSize scale c' | Some s \<Rightarrow> s) f),
           c'))"

text \<open>
  \<open>toInv()\<close> is \<open>new InvItem(InvItem.types.CLAIM, this.hash('hex'))\<close>; an inventory item
  (\<open>lib/primitives/invitem.js\<close>, not part of the sources) is its type and its hash.
\<close>

record InvItem =
  inv_type :: nat
  inv_hash :: hashval

definition toInv :: "(bytes \<Rightarrow> bytes) \<Rightarrow> nat \<Rightarrow> Claim \<Rightarrow> InvItem \<times> Claim" where
  "toInv digest INV_CLAIM c =
     (case hash digest (Some ''hex'') c of
        (h, c') \<Rightarrow> (\<lparr>inv_type = INV_CLAIM, inv_hash = h\<rparr>, c'))"

section \<open>Transaction materialization: toTX\<close>

text \<open>
  Modelled from the spec: the classes \<open>TX\<close>, \<open>Input\<close> and \<open>Output\<close>
  (\<open>lib/primitives/tx.js\<close>, \<open>input.js\<close>, \<open>output.js\<close>) are not part of the sources. The records
  hold the fields \<open>toTX\<close> touches. By the spec a new transaction has no inputs and no
  outputs, \<open>new Input()\<close> is the empty placeholder (a witness without items) and
  \<open>new Output()\<close> the zero-value placeholder with an empty destination and a covenant
  without items; \<open>tx.refresh()\<close> resets the cached identity of the transaction, of which
  these records hold none. The covenant type \<open>types.CLAIM\<close> of
  \<open>lib/covenants/rules.js\<close> is the parameter \<open>CLAIM\<close> of \<open>toTX\<close>.
\<close>

record Witness =
  witness_items :: "bytes list"

record Input =
  witness :: Witness

record Address =
  address_version :: nat
  address_hash :: bytes

record Covenant =
  covenant_type :: nat
  covenant_items :: "bytes list"

record Output =
  output_value :: int
  address :: Address
  covenant :: Covenant

record TX =
  inputs :: "Input list"
  outputs :: "Output list"

definition newInput :: Input where
  "newInput = \<lparr>witness = \<lparr>witness_items = []\<rparr>\<rparr>"

definition newOutput :: Output where
  "newOutput =
     \<lparr>output_value = 0,
      address = \<lparr>address_version = 0, address_hash = []\<rparr>,
      covenant = \<lparr>covenant_type = 0, covenant_items = []\<rparr>\<rparr>"

definition newTX :: TX where
  "newTX = \<lparr>inputs = [], outputs = []\<rparr>"

definition refreshTX :: "TX \<Rightarrow> TX" where
  "refreshTX tx = tx"

text \<open>The status byte: \<open>flags = 0; if (weak) flags |= 1; if (forked) flags |= 2\<close>.\<close>

definition statusFlags :: "ProofData \<Rightarrow> byte" where
  "statusFlags d =
     (let flags = 0;
          flags = (if weak d then flags OR 1 else flags);
          flags = (if forked d then flags OR 2 else flags)
      in flags)"

definition toTX ::
  "('p, 'n) ownership \<Rightarrow> nat \<Rightarrow> 'n \<Rightarrow> Claim \<Rightarrow> (error + TX) \<times> Claim" where
  "toTX own CLAIM network c =
     (case getData own network c of
        (None, c') \<Rightarrow> (Inl AssertionError, c')
      | (Some d, c') \<Rightarrow>
          (let tx = newTX;
               tx = tx\<lparr>inputs := inputs tx @ [newInput]\<rparr>;
               tx = tx\<lparr>outputs := outputs tx @ [newOutput]\<rparr>;
               input = newInput;
               input = input\<lparr>witness :=
                 (witness input)\<lparr>witness_items := witness_items (witness input) @ [blob c']\<rparr>\<rparr>;
               output = newOutput;
               output = output\<lparr>output_value :=
                 (if forked d then 0 else data_value d - fee d)\<rparr>;
               output = output\<lparr>address := (address output)\<lparr>address_version := data_version d\<rparr>\<rparr>;
               output = output\<lparr>address := (address output)\<lparr>address_hash := data_hash d\<rparr>\<rparr>;
               output = output\<lparr>covenant := (covenant output)\<lparr>covenant_type := CLAIM\<rparr>\<rparr>;
               output = output\<lparr>covenant := (covenant output)\<lparr>covenant_items :=
                 covenant_items (covenant output) @ [nameHash d]\<rparr>\<rparr>;
               output = output\<lparr>covenant := (covenant output)\<lparr>covenant_items :=
                 covenant_items (covenant output) @ [nameRaw d]\<rparr>\<rparr>;
               output = output\<lparr>covenant := (covenant output)\<lparr>covenant_items :=
                 covenant_items (covenant output) @ [[statusFlags d]]\<rparr>\<rparr>;
               tx = tx\<lparr>inputs := inputs tx @ [input]\<rparr>;
               tx = tx\<lparr>outputs := outputs tx @ [output]\<rparr>
           in (Inr (refreshTX tx), c')))"

section \<open>The claims a program can build\<close>

text \<open>
  The states of a \<open>Claim\<close> that the constructor and the methods of the class produce.
  The methods without a rule (\<open>getSize\<close>, \<open>write\<close>, \<open>getWeight\<close>, \<open>getVirtualSize\<close>,
  \<open>getMinFee\<close>, \<open>getProof\<close>, \<open>toProof\<close>, \<open>toBlob\<close>) do not assign a field.
\<close>

inductive reachable :: "(bytes \<Rightarrow> bytes) \<Rightarrow> ('p, 'n) ownership \<Rightarrow> Claim \<Rightarrow> bool"
  for digest :: "bytes \<Rightarrow> bytes" and own :: "('p, 'n) ownership" where
  r_new: "reachable digest own newClaim"
| r_refresh: "reachable digest own c \<Longrightarrow> reachable digest own (refresh c)"
| r_hash: "reachable digest own c \<Longrightarrow> reachable digest own (snd (hash digest enc c))"
| r_getData: "reachable digest own c \<Longrightarrow> reachable digest own (snd (getData own network c))"
| r_getNameHash:
    "reachable digest own c \<Longrightarrow> reachable digest own (snd (getNameHash own network c))"
| r_getFee: "reachable digest own c \<Longrightarrow> reachable digest own (snd (getFee own network c))"
| r_getRate:
    "reachable digest own c \<Longrightarrow>
     reachable digest own (snd (getRate own policy_getRate scale sz network c))"
| r_toInv: "reachable digest own c \<Longrightarrow> reachable digest own (snd (toInv digest INV_CLAIM c))"
| r_toTX: "reachable digest own c \<Longrightarrow> reachable digest own (snd (toTX own CLAIM network c))"
| r_read: "reachable digest own c \<Longrightarrow> reachable digest own (fst (snd (read c br)))"
| r_fromBlob: "reachable digest own c \<Longrightarrow> reachable digest own (fromBlob c b)"
| r_fromProof: "reachable digest own c \<Longrightarrow> reachable digest own (fromProof own c p)"

section \<open>A hex cache in step with the blob\<close>

text \<open>
  The hex cache of a claim is in step with its blob when it is empty (\<open>null\<close> or the
  empty string, which \<open>hash\<close> treats alike) or holds the hex form of the digest of the
  blob the claim holds now.
\<close>

definition coherent :: "(bytes \<Rightarrow> bytes) \<Rightarrow> Claim \<Rightarrow> bool" where
  "coherent digest c = (cache_hhash c \<in> {None, Some [], Some (toHex (digest (blob c)))})"

section \<open>Stand-ins for evaluating the model\<close>

text \<open>
  The digest and the proof codec are parameters of the model. To evaluate it on concrete
  inputs, \<open>demo_digest\<close> is a one-byte checksum standing in for the digest, and
  \<open>demo_ownership\<close> a proof codec in which a proof is its own non-empty encoding, the
  empty blob does not decode, and a proof has data for the networks below 100. The
  general theorems below never mention them.
\<close>

definition demo_digest :: "bytes \<Rightarrow> bytes" where
  "demo_digest b = [sum_list b]"

definition demo_ownership :: "(bytes, nat) ownership" where
  "demo_ownership =
     \<lparr>op_decode = (\<lambda>b. if b = [] then Inl ProofDecodeError else Inr b),
      op_new = [],
      op_getData = (\<lambda>p network. if p = [] then None else if 100 \<le> network then None else
        Some \<lparr>nameHash = p, nameRaw = p, data_version = network, data_hash = p,
              data_value = 1000, fee = 100, weak = (hd p = 1), forked = (hd p = 2)\<rparr>),
      op_encode = (\<lambda>p. p)\<rparr>"

section \<open>Facts about the codec\<close>

lemma length_writeUIntLE: "length (writeUIntLE k n) = k"
  by (induction k arbitrary: n) simp_all

lemma readUIntLE_writeUIntLE: "n < 256 ^ k \<Longrightarrow> readUIntLE (writeUIntLE k n) = n"
proof (induction k arbitrary: n)
  case 0
  then show ?case by simp
next
  case (Suc k)
  have "n div 256 < 256 ^ k"
    using Suc.prems by (simp add: less_mult_imp_div_less mult.commute)
  then have "readUIntLE (writeUIntLE k (n div 256)) = n div 256"
    by (rule Suc.IH)
  moreover have "unat (of_nat (n mod 256) :: byte) = n mod 256"
    by (simp add: unat_of_nat)
  ultimately show ?case by simp
qed

lemma length_writeVarint: "length (writeVarint n) = sizeVarint n"
  by (simp add: writeVarint_def sizeVarint_def length_writeUIntLE)

lemma readUIntLE_less: "readUIntLE bs < 256 ^ length bs"
proof (induction bs)
  case Nil
  then show ?case by simp
next
  case (Cons b bs)
  have "unat b < 256" using unsigned_less [of b, where ?'a = nat] by simp
  with Cons show ?case by simp
qed

lemma byte_not_tag:
  fixes b :: byte
  assumes "b \<noteq> 0xff" "b \<noteq> 0xfe" "b \<noteq> 0xfd"
  shows "unat b < 0xfd"
proof -
  have "unat b < 256" using unsigned_less [of b, where ?'a = nat] by simp
  moreover have "unat b \<noteq> k" if "b \<noteq> of_nat k" for k
    using that by auto
  then have "unat b \<noteq> 255" "unat b \<noteq> 254" "unat b \<noteq> 253"
    using assms by simp_all
  ultimately show ?thesis by simp
qed

lemma length_peekAfterTag:
  "br_offset br + 1 + k \<le> length (br_data br) \<Longrightarrow> length (peekAfterTag br k) = k"
  by (simp add: peekAfterTag_def)

text \<open>A length prefix that is read is the smallest encoding of its value.\<close>

lemma readVarint_Inr:
  assumes "readVarint br = (Inr n, br1)"
  shows "br1 = br\<lparr>br_offset := br_offset br + sizeVarint n\<rparr> \<and>
         br_offset br + sizeVarint n \<le> length (br_data br)"
proof -
  have b2: "readUIntLE (peekAfterTag br 2) < 65536"
    if "br_offset br + 3 \<le> length (br_data br)"
    using readUIntLE_less [of "peekAfterTag br 2"] length_peekAfterTag [of br 2] that by simp
  have b4: "readUIntLE (peekAfterTag br 4) < 4294967296"
    if "br_offset br + 5 \<le> length (br_data br)"
    using readUIntLE_less [of "peekAfterTag br 4"] length_peekAfterTag [of br 4] that by simp
  show ?thesis
    using assms b2 b4 byte_not_tag [of "br_data br ! br_offset br"]
    by (auto simp: readVarint_def Let_def sizeVarint_def split: if_splits)
qed

lemma readVarint_Inl: "readVarint br = (Inl e, br1) \<Longrightarrow> br1 = br"
  by (auto simp: readVarint_def Let_def split: if_splits)

lemma readVarint_writeVarint_small:
  assumes "n \<le> 10000"
  shows "readVarint \<lparr>br_data = writeVarint n @ rest, br_offset = 0\<rparr> =
         (Inr n, \<lparr>br_data = writeVarint n @ rest, br_offset = sizeVarint n\<rparr>)"
proof (cases "n < 0xfd")
  case True
  then have u: "unat (of_nat n :: byte) = n" by (simp add: unat_of_nat)
  have ne: "(of_nat n :: byte) \<noteq> w" if "n < unat w" for w
    using that u by auto
  have "(of_nat n :: byte) \<noteq> 0xff" "(of_nat n :: byte) \<noteq> 0xfe" "(of_nat n :: byte) \<noteq> 0xfd"
    using True by (auto intro!: ne)
  then show ?thesis using True u
    by (simp add: readVarint_def writeVarint_def sizeVarint_def)
next
  case False
  then have le: "n \<le> 0xffff" using assms by simp
  have lt: "n < 256 ^ 2" using assms by simp
  have r: "readUIntLE (writeUIntLE 2 n) = n"
    by (rule readUIntLE_writeUIntLE [OF lt])
  have len: "length (writeUIntLE 2 n) = 2" by (rule length_writeUIntLE)
  have p: "peekAfterTag \<lparr>br_data = 0xfd # writeUIntLE 2 n @ rest, br_offset = 0\<rparr> 2 =
           writeUIntLE 2 n"
    using len by (simp add: peekAfterTag_def)
  show ?thesis using False le r p len
    by (simp add: readVarint_def writeVarint_def sizeVarint_def Let_def)
qed

section \<open>Round trip of the codec\<close>

text \<open>
  Claim C3. For every claim whose blob has at most 10,000 bytes, reading the bytes that
  \<open>encode\<close> produces (the length prefix, then the blob) succeeds, on any claim object, and
  leaves it with the blob of the original, the reader at the end of the bytes; the static
  \<open>decode\<close> returns a new claim with that blob; and \<open>getSize\<close> is the length of the
  encoding, the size of the prefix plus the length of the blob.
\<close>

theorem C3_encode_decode_roundtrip:
  assumes "length (blob c) \<le> 10000"
  shows "read c0 (newBufferReader (encode c)) =
           (Inr (), c0\<lparr>blob := blob c\<rparr>,
            \<lparr>br_data = encode c, br_offset = length (encode c)\<rparr>) \<and>
         decode (encode c) = Inr (static_fromBlob (blob c)) \<and>
         getSize c = length (encode c) \<and>
         length (encode c) = sizeVarint (length (blob c)) + length (blob c)"
proof -
  let ?n = "length (blob c)"
  have enc: "encode c = writeVarint ?n @ blob c"
    by (simp add: encode_def write_claim_def writeVarBytes_def)
  have len: "length (encode c) = sizeVarint ?n + ?n"
    by (simp add: enc length_writeVarint)
  have rv: "readVarint (newBufferReader (encode c)) =
        (Inr ?n, \<lparr>br_data = encode c, br_offset = sizeVarint ?n\<rparr>)"
    unfolding enc newBufferReader_def by (rule readVarint_writeVarint_small [OF assms])
  have rb: "readBytes ?n \<lparr>br_data = encode c, br_offset = sizeVarint ?n\<rparr> =
        (Inr (blob c), \<lparr>br_data = encode c, br_offset = length (encode c)\<rparr>)"
    using len by (simp add: readBytes_def enc length_writeVarint)
  have rd: "read c1 (newBufferReader (encode c)) =
           (Inr (), c1\<lparr>blob := blob c\<rparr>,
            \<lparr>br_data = encode c, br_offset = length (encode c)\<rparr>)" for c1
    using assms by (simp add: read_def rv rb)
  have "decode (encode c) = Inr (static_fromBlob (blob c))"
    by (simp add: decode_def rd static_fromBlob_def fromBlob_def)
  then show ?thesis using rd len by (simp add: getSize_def sizeVarBytes_def)
qed

text \<open>A blob of 300 bytes: the prefix takes three bytes and the encoding 303.\<close>

theorem C3_encode_decode_roundtrip_witness:
  "length (blob (static_fromBlob (replicate 300 7))) \<le> 10000 \<and>
   decode (encode (static_fromBlob (replicate 300 7))) = Inr (static_fromBlob (replicate 300 7)) \<and>
   getSize (static_fromBlob (replicate 300 7)) = 303"
  using C3_encode_decode_roundtrip [of "static_fromBlob (replicate 300 7)" newClaim]
  by (simp add: static_fromBlob_def fromBlob_def sizeVarint_def)

section \<open>Reading a claim\<close>

text \<open>
  Claim C2, as amended. \<open>read\<close> first reads the length prefix. If the prefix cannot be read,
  the reader's error is the outcome and nothing changes. If the declared length exceeds
  10,000, the outcome is the size error, the blob is unchanged and the reader has consumed
  the prefix only. Otherwise, if that many bytes remain, exactly they become the blob, the
  reader advances by that many bytes and the read succeeds; no other field of the claim
  changes and no proof is parsed. If fewer bytes remain, the outcome is the reader's
  out-of-bounds error, the blob is unchanged and the reader has consumed the prefix only.
\<close>

theorem C2_read_length_prefix:
  "(fst (readVarint br) = Inl e \<longrightarrow> read c br = (Inl e, c, br)) \<and>
   (fst (readVarint br) = Inr n \<and> n > 10000 \<longrightarrow>
      read c br = (Inl InvalidClaimSize, c, br\<lparr>br_offset := br_offset br + sizeVarint n\<rparr>)) \<and>
   (fst (readVarint br) = Inr n \<and> n \<le> 10000 \<and>
      br_offset br + sizeVarint n + n \<le> length (br_data br) \<longrightarrow>
      read c br =
        (Inr (), c\<lparr>blob := take n (drop (br_offset br + sizeVarint n) (br_data br))\<rparr>,
         br\<lparr>br_offset := br_offset br + sizeVarint n + n\<rparr>)) \<and>
   (fst (readVarint br) = Inr n \<and> n \<le> 10000 \<and>
      br_offset br + sizeVarint n + n > length (br_data br) \<longrightarrow>
      read c br = (Inl OutOfBoundsRead, c, br\<lparr>br_offset := br_offset br + sizeVarint n\<rparr>))"
proof -
  obtain r br1 where rv: "readVarint br = (r, br1)"
    by (cases "readVarint br") auto
  have a: "read c br = (Inl e, c, br)" if "r = Inl e"
    using that rv readVarint_Inl [of br e br1] by (simp add: read_def)
  have b: "read c br = (Inl InvalidClaimSize, c, br\<lparr>br_offset := br_offset br + sizeVarint n\<rparr>)"
    if "r = Inr n" "n > 10000"
    using that rv readVarint_Inr [of br n br1] by (simp add: read_def)
  have c: "read c br =
        (Inr (), c\<lparr>blob := take n (drop (br_offset br + sizeVarint n) (br_data br))\<rparr>,
         br\<lparr>br_offset := br_offset br + sizeVarint n + n\<rparr>)"
    if "r = Inr n" "n \<le> 10000" "br_offset br + sizeVarint n + n \<le> length (br_data br)"
    using that rv readVarint_Inr [of br n br1] by (simp add: read_def readBytes_def)
  have d: "read c br = (Inl OutOfBoundsRead, c, br\<lparr>br_offset := br_offset br + sizeVarint n\<rparr>)"
    if "r = Inr n" "n \<le> 10000" "br_offset br + sizeVarint n + n > length (br_data br)"
    using that rv readVarint_Inr [of br n br1] by (simp add: read_def readBytes_def)
  show ?thesis using a b c d rv by simp
qed

text \<open>
  A prefix of 10,001 (\<open>fd 11 27\<close>) is refused with the reader just behind the prefix; a
  prefix of 3 followed by five bytes gives the blob of the first three; a prefix that is
  not the smallest encoding (\<open>fd 03 00\<close>) is refused by the reader, which stays where it
  was; and a prefix of 5 followed by two bytes ends in the reader's out-of-bounds error.
\<close>

theorem C2_read_length_prefix_witness:
  "fst (readVarint (newBufferReader [0xfd, 0x11, 0x27, 1, 2, 3])) = Inr 10001 \<and>
   read newClaim (newBufferReader [0xfd, 0x11, 0x27, 1, 2, 3]) =
     (Inl InvalidClaimSize, newClaim, \<lparr>br_data = [0xfd, 0x11, 0x27, 1, 2, 3], br_offset = 3\<rparr>) \<and>
   fst (readVarint (newBufferReader [0x03, 0x11, 0x27, 1, 2, 3])) = Inr 3 \<and>
   read newClaim (newBufferReader [0x03, 0x11, 0x27, 1, 2, 3]) =
     (Inr (), newClaim\<lparr>blob := [0x11, 0x27, 1]\<rparr>,
      \<lparr>br_data = [0x03, 0x11, 0x27, 1, 2, 3], br_offset = 4\<rparr>) \<and>
   fst (readVarint (newBufferReader [0xfd, 0x03, 0x00, 1, 2, 3])) = Inl NonCanonicalVarint \<and>
   read newClaim (newBufferReader [0xfd, 0x03, 0x00, 1, 2, 3]) =
     (Inl NonCanonicalVarint, newClaim, \<lparr>br_data = [0xfd, 0x03, 0x00, 1, 2, 3], br_offset = 0\<rparr>) \<and>
   fst (readVarint (newBufferReader [0x05, 1, 2])) = Inr 5 \<and>
   read newClaim (newBufferReader [0x05, 1, 2]) =
     (Inl OutOfBoundsRead, newClaim, \<lparr>br_data = [0x05, 1, 2], br_offset = 1\<rparr>)"
proof -
  have v1: "fst (readVarint (newBufferReader [0xfd, 0x11, 0x27, 1, 2, 3])) = Inr 10001"
    by (simp add: readVarint_def newBufferReader_def peekAfterTag_def Let_def)
  have v2: "fst (readVarint (newBufferReader [0x03, 0x11, 0x27, 1, 2, 3])) = Inr 3"
    by (simp add: readVarint_def newBufferReader_def Let_def)
  have v3: "fst (readVarint (newBufferReader [0xfd, 0x03, 0x00, 1, 2, 3])) = Inl NonCanonicalVarint"
    by (simp add: readVarint_def newBufferReader_def peekAfterTag_def Let_def)
  have v4: "fst (readVarint (newBufferReader [0x05, 1, 2])) = Inr 5"
    by (simp add: readVarint_def newBufferReader_def Let_def)
  show ?thesis
    using v1 v2 v3 v4
      C2_read_length_prefix [of "newBufferReader [0xfd, 0x11, 0x27, 1, 2, 3]" _ newClaim 10001]
      C2_read_length_prefix [of "newBufferReader [0x03, 0x11, 0x27, 1, 2, 3]" _ newClaim 3]
      C2_read_length_prefix
        [of "newBufferReader [0xfd, 0x03, 0x00, 1, 2, 3]" NonCanonicalVarint newClaim]
      C2_read_length_prefix [of "newBufferReader [0x05, 1, 2]" _ newClaim 5]
    by (simp add: newBufferReader_def sizeVarint_def)
qed

text \<open>
  The claim as stated fails on a truncated buffer: the bytes \<open>02 aa\<close> declare a length of
  2, which does not exceed 10,000, and \<open>read\<close> does not succeed.
\<close>

theorem C2_truncated_buffer_counterexample:
  "fst (readVarint (newBufferReader [0x02, 0xaa])) = Inr 2 \<and>
   read newClaim (newBufferReader [0x02, 0xaa]) =
     (Inl OutOfBoundsRead, newClaim, \<lparr>br_data = [0x02, 0xaa], br_offset = 1\<rparr>)"
  by (simp add: read_def readVarint_def readBytes_def newBufferReader_def Let_def)

section \<open>Facts about hash\<close>

lemma distinct_hexDigits: "distinct ''0123456789abcdef''"
  by simp

lemma hexDigit_inj: "i < 16 \<Longrightarrow> j < 16 \<Longrightarrow> hexDigit i = hexDigit j \<Longrightarrow> i = j"
  unfolding hexDigit_def
  by (simp only: nth_eq_iff_index_eq [OF distinct_hexDigits] length_Cons list.size)

lemma hexByte_inj:
  fixes a b :: byte
  assumes "hexDigit (unat a div 16) = hexDigit (unat b div 16)"
      and "hexDigit (unat a mod 16) = hexDigit (unat b mod 16)"
  shows "a = b"
proof -
  have la: "unat a < 256" using unsigned_less [of a, where ?'a = nat] by simp
  have lb: "unat b < 256" using unsigned_less [of b, where ?'a = nat] by simp
  have "unat a div 16 = unat b div 16"
    using assms(1) la lb by (intro hexDigit_inj) simp_all
  moreover have "unat a mod 16 = unat b mod 16"
    using assms(2) by (intro hexDigit_inj) simp_all
  ultimately have "unat a = unat b"
    by (metis div_mult_mod_eq)
  then show ?thesis by (simp add: word_unat_eq_iff)
qed

lemma toHex_Nil: "toHex [] = []"
  by (simp add: toHex_def)

lemma toHex_Cons:
  "toHex (b # bs) = hexDigit (unat b div 16) # hexDigit (unat b mod 16) # toHex bs"
  by (simp add: toHex_def)

text \<open>Different digests have different hex strings.\<close>

lemma toHex_inj: "toHex xs = toHex ys \<Longrightarrow> xs = ys"
proof (induction xs arbitrary: ys)
  case Nil
  then show ?case by (cases ys) (simp_all add: toHex_Nil toHex_Cons)
next
  case (Cons x xs)
  then show ?case
    by (cases ys) (auto simp: toHex_Nil toHex_Cons intro: hexByte_inj)
qed

text \<open>No method of the class assigns \<open>_hash\<close>: it is \<open>null\<close> in every claim a program builds.\<close>

lemma reachable_cache_hash: "reachable digest own c \<Longrightarrow> cache_hash c = None"
proof (induction rule: reachable.induct)
  case r_new
  then show ?case by (simp add: newClaim_def)
next
  case (r_refresh c)
  then show ?case by (simp add: refresh_def)
next
  case (r_hash c enc)
  then show ?case by (simp add: hash_def Let_def split: option.splits)
next
  case (r_getData c network)
  then show ?case by (simp add: getData_def split: option.splits)
next
  case (r_getNameHash c network)
  then show ?case by (simp add: getNameHash_def getData_def split: option.splits)
next
  case (r_getFee c network)
  then show ?case by (simp add: getFee_def getData_def split: option.splits)
next
  case (r_getRate c policy_getRate scale sz network)
  then show ?case
    by (simp add: getRate_def getFee_def getData_def split: option.splits)
next
  case (r_toInv c INV_CLAIM)
  then show ?case by (simp add: toInv_def hash_def Let_def split: option.splits)
next
  case (r_toTX c CLAIM network)
  then show ?case by (simp add: toTX_def getData_def split: option.splits)
next
  case (r_read c br)
  then show ?case by (simp add: read_def split: prod.splits sum.splits)
next
  case (r_fromBlob c b)
  then show ?case by (simp add: fromBlob_def)
next
  case (r_fromProof c p)
  then show ?case by (simp add: fromProof_def)
qed

text \<open>
  The hex cache outlives a reassignment of the blob: for every digest whose value on the
  old blob is not empty, \<open>hash('hex')\<close> after \<open>fromBlob\<close> is the hex digest of the old blob.
\<close>

lemma stale_hex_after_fromBlob:
  assumes "cache_hash c = None" "cache_hhash c = None" "digest (blob c) \<noteq> []"
  shows "fst (hash digest (Some ''hex'') (fromBlob (snd (hash digest (Some ''hex'') c)) b)) =
         HexStr (toHex (digest (blob c)))"
proof -
  obtain x xs where "digest (blob c) = x # xs"
    using assms(3) by (cases "digest (blob c)") auto
  then show ?thesis using assms(1,2)
    by (simp add: hash_def fromBlob_def toHex_Cons)
qed

text \<open>
  So it differs from the hex hash of a new claim with the new blob whenever the digest
  tells the two blobs apart.
\<close>

lemma stale_hex_differs:
  assumes "cache_hash c = None" "cache_hhash c = None" "digest (blob c) \<noteq> []"
      and "digest b \<noteq> digest (blob c)"
  shows "fst (hash digest (Some ''hex'') (fromBlob (snd (hash digest (Some ''hex'') c)) b)) \<noteq>
         fst (hash digest (Some ''hex'') (static_fromBlob b))"
proof -
  have "fst (hash digest (Some ''hex'') (static_fromBlob b)) = HexStr (toHex (digest b))"
    by (simp add: hash_def static_fromBlob_def fromBlob_def newClaim_def Let_def)
  moreover have "toHex (digest b) \<noteq> toHex (digest (blob c))"
    using assms(4) toHex_inj by blast
  ultimately show ?thesis
    using stale_hex_after_fromBlob [of c digest b] assms(1-3) by simp
qed

section \<open>The binary hash\<close>

text \<open>
  Claim C9. In every claim that the constructor and the methods of the class build, the
  binary-hash cache is empty, and \<open>hash\<close> called without \<open>'hex'\<close> returns the digest of the
  blob as it is at the call and leaves the claim as it was; \<open>hash('hex')\<close> does not fill
  the binary-hash cache either. So the binary digest is computed anew at each call,
  whatever the hex cache holds.
\<close>

theorem C9_binary_hash_recomputed:
  assumes "reachable digest own c" and "enc \<noteq> Some ''hex''"
  shows "cache_hash c = None \<and>
         hash digest enc c = (Bin (digest (blob c)), c) \<and>
         cache_hash (snd (hash digest (Some ''hex'') c)) = None"
proof -
  have n: "cache_hash c = None" by (rule reachable_cache_hash [OF assms(1)])
  have "cache_hash (snd (hash digest (Some ''hex'') c)) = None"
    by (rule reachable_cache_hash [OF r_hash [OF assms(1)]])
  then show ?thesis using n assms(2) by (simp add: hash_def)
qed

text \<open>
  A claim whose hex cache still holds the hex digest of an earlier blob: the binary hash
  is the digest of the blob it holds now.
\<close>

theorem C9_binary_hash_recomputed_witness:
  "reachable demo_digest demo_ownership
      (fromBlob (snd (hash demo_digest (Some ''hex'') (fromBlob newClaim [1]))) [2]) \<and>
   None \<noteq> Some ''hex'' \<and>
   hash demo_digest None
      (fromBlob (snd (hash demo_digest (Some ''hex'') (fromBlob newClaim [1]))) [2]) =
       (Bin [2],
        \<lparr>blob = [2], cache_hash = None, cache_hhash = Some ''01'', cache_data = None\<rparr>)"
proof -
  let ?c = "fromBlob (snd (hash demo_digest (Some ''hex'') (fromBlob newClaim [1]))) [2]"
  have r: "reachable demo_digest demo_ownership ?c"
    by (intro r_fromBlob r_hash r_new)
  have e: "?c = \<lparr>blob = [2], cache_hash = None, cache_hhash = Some ''01'', cache_data = None\<rparr>"
    by (simp add: fromBlob_def hash_def newClaim_def demo_digest_def toHex_def hexDigit_def)
  show ?thesis
    using r C9_binary_hash_recomputed [OF r, of None] e by (simp add: demo_digest_def)
qed

section \<open>Reassigning the blob\<close>

lemma read_keeps_caches:
  "cache_hash (fst (snd (read c br))) = cache_hash c \<and>
   cache_hhash (fst (snd (read c br))) = cache_hhash c \<and>
   cache_data (fst (snd (read c br))) = cache_data c"
  by (simp add: read_def split: prod.splits sum.splits)








section \<open>The hash as a function of the blob\<close>

lemma getData_keeps_hex:
  "blob (snd (getData own network c)) = blob c \<and>
   cache_hhash (snd (getData own network c)) = cache_hhash c"
  by (simp add: getData_def split: option.splits)

lemma coherent_hash:
  assumes "cache_hash c = None" "coherent digest c"
  shows "coherent digest (snd (hash digest enc c))"
  using assms by (auto simp: coherent_def hash_def Let_def split: option.splits)

lemma coherent_hex:
  assumes "cache_hash c = None" "coherent digest c"
  shows "fst (hash digest (Some ''hex'') c) = HexStr (toHex (digest (blob c)))"
  using assms by (auto simp: coherent_def hash_def Let_def split: option.splits)

lemma coherent_methods:
  assumes r: "reachable digest own c" and k: "coherent digest c"
  shows "coherent digest (snd (hash digest enc c)) \<and>
         coherent digest (snd (toInv digest INV_CLAIM c)) \<and>
         coherent digest (snd (getData own network c)) \<and>
         coherent digest (snd (getNameHash own network c)) \<and>
         coherent digest (snd (getFee own network c)) \<and>
         coherent digest (snd (getRate own policy_getRate scale sz network c)) \<and>
         coherent digest (snd (toTX own CLAIM network c))"
proof -
  have n: "cache_hash c = None" by (rule reachable_cache_hash [OF r])
  have h: "coherent digest (snd (hash digest e c))" for e
    by (rule coherent_hash [OF n k])
  have i: "snd (toInv digest INV_CLAIM c) = snd (hash digest (Some ''hex'') c)"
    by (simp add: toInv_def split: prod.splits)
  have g: "coherent digest (snd (getData own network c))"
    using k getData_keeps_hex [of own network c] by (simp add: coherent_def)
  have "snd (getNameHash own network c) = snd (getData own network c)"
    "snd (getFee own network c) = snd (getData own network c)"
    "snd (getRate own policy_getRate scale sz network c) = snd (getData own network c)"
    "snd (toTX own CLAIM network c) = snd (getData own network c)"
    by (simp_all add: getNameHash_def getFee_def getRate_def toTX_def Let_def
          split: prod.splits option.splits sum.splits)
  then show ?thesis using h i g by simp
qed

lemma coherent_reassign:
  assumes "cache_hhash c \<in> {None, Some []}"
  shows "coherent digest (fromBlob c b) \<and> coherent digest (fromProof own c p) \<and>
         coherent digest (fst (snd (read c br)))"
  using assms read_keeps_caches [of c br]
  by (auto simp: coherent_def fromBlob_def fromProof_def)

lemma coherent_failed_read:
  assumes "coherent digest c" "fst (read c br) \<noteq> Inr ()"
  shows "coherent digest (fst (snd (read c br)))"
proof -
  have "fst (snd (read c br)) = c"
    using assms(2) by (auto simp: read_def split: prod.splits sum.splits if_splits)
  then show ?thesis using assms(1) by simp
qed

text \<open>
  Claim C8, as amended. For two claims that the class builds and that hold the same blob,
  \<open>hash()\<close> without \<open>'hex'\<close> returns the same binary digest, the digest of the blob; and
  \<open>hash('hex')\<close> returns the same string, the hex form of that digest, whenever the hex
  cache of each is in step with its blob (empty, or the hex digest of the blob it holds
  now). No result of \<open>hash\<close> depends on the proof data cache. The hex cache is in step in
  a new claim and after \<open>refresh\<close>; \<open>hash\<close>, \<open>toInv\<close>, \<open>getData\<close>, \<open>getNameHash\<close>, \<open>getFee\<close>,
  \<open>getRate\<close>, \<open>toTX\<close> and a failed \<open>read\<close> keep it in step; and so do \<open>fromBlob\<close>,
  \<open>fromProof\<close> and \<open>read\<close> when the hex cache is empty at the reassignment.
\<close>

theorem C8_hash_function_of_blob:
  "(reachable digest own1 c1 \<and> reachable digest own2 c2 \<and> blob c1 = blob c2 \<and>
      enc1 \<noteq> Some ''hex'' \<and> enc2 \<noteq> Some ''hex'' \<longrightarrow>
      fst (hash digest enc1 c1) = Bin (digest (blob c1)) \<and>
      fst (hash digest enc1 c1) = fst (hash digest enc2 c2)) \<and>
   (reachable digest own1 c1 \<and> reachable digest own2 c2 \<and> blob c1 = blob c2 \<and>
      coherent digest c1 \<and> coherent digest c2 \<longrightarrow>
      fst (hash digest (Some ''hex'') c1) = HexStr (toHex (digest (blob c1))) \<and>
      fst (hash digest (Some ''hex'') c1) = fst (hash digest (Some ''hex'') c2)) \<and>
   fst (hash digest enc (c\<lparr>cache_data := x\<rparr>)) = fst (hash digest enc c) \<and>
   coherent digest newClaim \<and>
   coherent digest (refresh c) \<and>
   (reachable digest own1 c1 \<and> coherent digest c1 \<longrightarrow>
      coherent digest (snd (hash digest enc c1)) \<and>
      coherent digest (snd (toInv digest INV_CLAIM c1)) \<and>
      coherent digest (snd (getData own1 network c1)) \<and>
      coherent digest (snd (getNameHash own1 network c1)) \<and>
      coherent digest (snd (getFee own1 network c1)) \<and>
      coherent digest (snd (getRate own1 policy_getRate scale sz network c1)) \<and>
      coherent digest (snd (toTX own1 CLAIM network c1))) \<and>
   (coherent digest c \<and> fst (read c br) \<noteq> Inr () \<longrightarrow>
      coherent digest (fst (snd (read c br)))) \<and>
   (cache_hhash c \<in> {None, Some []} \<longrightarrow>
      coherent digest (fromBlob c b) \<and> coherent digest (fromProof own1 c p) \<and>
      coherent digest (fst (snd (read c br))))"
proof -
  have bin: "fst (hash digest e c) = Bin (digest (blob c))"
    if "reachable digest own c" "e \<noteq> Some ''hex''"
    for e c and own :: "('x, 'y) ownership"
    using that reachable_cache_hash [OF that(1)] by (simp add: hash_def)
  have hex: "fst (hash digest (Some ''hex'') c) = HexStr (toHex (digest (blob c)))"
    if "reachable digest own c" "coherent digest c"
    for c and own :: "('x, 'y) ownership"
    by (rule coherent_hex [OF reachable_cache_hash [OF that(1)] that(2)])
  have d: "fst (hash digest enc (c\<lparr>cache_data := x\<rparr>)) = fst (hash digest enc c)"
    by (simp add: hash_def Let_def split: option.splits)
  have i: "coherent digest newClaim" "coherent digest (refresh c)"
    by (simp_all add: coherent_def newClaim_def refresh_def)
  have p1: "(reachable digest own1 c1 \<and> reachable digest own2 c2 \<and> blob c1 = blob c2 \<and>
      enc1 \<noteq> Some ''hex'' \<and> enc2 \<noteq> Some ''hex'' \<longrightarrow>
      fst (hash digest enc1 c1) = Bin (digest (blob c1)) \<and>
      fst (hash digest enc1 c1) = fst (hash digest enc2 c2))"
    using bin [of own1 c1 enc1] bin [of own2 c2 enc2] by simp
  have p2: "(reachable digest own1 c1 \<and> reachable digest own2 c2 \<and> blob c1 = blob c2 \<and>
      coherent digest c1 \<and> coherent digest c2 \<longrightarrow>
      fst (hash digest (Some ''hex'') c1) = HexStr (toHex (digest (blob c1))) \<and>
      fst (hash digest (Some ''hex'') c1) = fst (hash digest (Some ''hex'') c2))"
    using hex [of own1 c1] hex [of own2 c2] by simp
  show ?thesis
    using p1 p2 d i
      coherent_methods [of digest own1 c1 enc INV_CLAIM network policy_getRate scale sz CLAIM]
      coherent_failed_read [of digest c br]
      coherent_reassign [of c digest b own1 p br]
    by blast
qed


text \<open>
  Two claims with the blob \<open>05\<close>, one after \<open>hash('hex')\<close>, its hex cache filled, the other
  with its proof data cached: the same binary digest and the same hex string.
\<close>

theorem C8_hash_function_of_blob_witness:
  "reachable demo_digest demo_ownership
     (snd (hash demo_digest (Some ''hex'') (fromBlob newClaim [5]))) \<and>
   reachable demo_digest demo_ownership
     (snd (getData demo_ownership 0 (fromBlob newClaim [5]))) \<and>
   blob (snd (hash demo_digest (Some ''hex'') (fromBlob newClaim [5]))) =
     blob (snd (getData demo_ownership 0 (fromBlob newClaim [5]))) \<and>
   cache_hhash (snd (hash demo_digest (Some ''hex'') (fromBlob newClaim [5]))) = Some ''05'' \<and>
   coherent demo_digest (snd (hash demo_digest (Some ''hex'') (fromBlob newClaim [5]))) \<and>
   coherent demo_digest (snd (getData demo_ownership 0 (fromBlob newClaim [5]))) \<and>
   cache_data (snd (getData demo_ownership 0 (fromBlob newClaim [5]))) \<noteq> None \<and>
   fst (hash demo_digest None (snd (hash demo_digest (Some ''hex'') (fromBlob newClaim [5])))) =
     Bin [5] \<and>
   fst (hash demo_digest None (snd (getData demo_ownership 0 (fromBlob newClaim [5])))) =
     Bin [5] \<and>
   fst (hash demo_digest (Some ''hex'')
          (snd (hash demo_digest (Some ''hex'') (fromBlob newClaim [5])))) = HexStr ''05'' \<and>
   fst (hash demo_digest (Some ''hex'')
          (snd (getData demo_ownership 0 (fromBlob newClaim [5])))) = HexStr ''05''"
proof -
  let ?c1 = "snd (hash demo_digest (Some ''hex'') (fromBlob newClaim [5]))"
  let ?c2 = "snd (getData demo_ownership 0 (fromBlob newClaim [5]))"
  have r1: "reachable demo_digest demo_ownership ?c1"
    by (intro r_hash r_fromBlob r_new)
  have r2: "reachable demo_digest demo_ownership ?c2"
    by (intro r_getData r_fromBlob r_new)
  have h: "toHex [5] = ''05''" "demo_digest [5] = [5]"
    by (simp_all add: demo_digest_def toHex_def hexDigit_def)
  have b1: "blob ?c1 = [5]" and x1: "cache_hhash ?c1 = Some ''05''"
    by (simp_all add: fromBlob_def newClaim_def hash_def Let_def demo_digest_def toHex_def
          hexDigit_def)
  have b2: "blob ?c2 = [5]" and x2: "cache_hhash ?c2 = None"
    and d2: "cache_data ?c2 \<noteq> None"
    by (simp_all add: fromBlob_def newClaim_def getData_def getProof_def toProof_def
          demo_ownership_def)
  have k1: "coherent demo_digest ?c1"
    by (simp add: coherent_def b1 x1 demo_digest_def toHex_def hexDigit_def)
  have k2: "coherent demo_digest ?c2"
    by (simp only: coherent_def x2) simp
  have b12: "blob ?c1 = blob ?c2"
    by (simp only: b1 b2)
  have n: "None \<noteq> Some ''hex''"
    by simp
  note t = C8_hash_function_of_blob
    [where digest = demo_digest and ?own1.0 = demo_ownership and ?c1.0 = ?c1
      and ?own2.0 = demo_ownership and ?c2.0 = ?c2 and ?enc1.0 = None and ?enc2.0 = None]
  from t [THEN conjunct1] r1 r2 b12 n
  have bin: "fst (hash demo_digest None ?c1) = Bin (demo_digest (blob ?c1)) \<and>
             fst (hash demo_digest None ?c1) = fst (hash demo_digest None ?c2)"
    by blast
  from t [THEN conjunct2, THEN conjunct1] r1 r2 b12 k1 k2
  have hex: "fst (hash demo_digest (Some ''hex'') ?c1) = HexStr (toHex (demo_digest (blob ?c1))) \<and>
             fst (hash demo_digest (Some ''hex'') ?c1) = fst (hash demo_digest (Some ''hex'') ?c2)"
    by blast
  have bin1: "fst (hash demo_digest None ?c1) = Bin [5]"
    using conjunct1 [OF bin] by (simp only: b1 h)
  have bin2: "fst (hash demo_digest None ?c2) = Bin [5]"
    by (rule trans [OF sym [OF conjunct2 [OF bin]] bin1])
  have hex1: "fst (hash demo_digest (Some ''hex'') ?c1) = HexStr ''05''"
    using conjunct1 [OF hex] by (simp only: b1 h)
  have hex2: "fst (hash demo_digest (Some ''hex'') ?c2) = HexStr ''05''"
    by (rule trans [OF sym [OF conjunct2 [OF hex]] hex1])
  show ?thesis
    using r1 r2 b12 x1 k1 k2 d2 bin1 bin2 hex1 hex2 by blast
qed


text \<open>
  The claim as stated fails for \<open>hash('hex')\<close>: the two claims below hold the same blob
  \<open>02\<close>, the first one after its hex hash was asked for while it held the blob \<open>01\<close>, and
  their hex hashes differ.
\<close>

theorem C8_equal_blobs_counterexample:
  "blob (fromBlob (snd (hash demo_digest (Some ''hex'') (static_fromBlob [1]))) [2]) =
     blob (static_fromBlob [2]) \<and>
   fst (hash demo_digest (Some ''hex'')
         (fromBlob (snd (hash demo_digest (Some ''hex'') (static_fromBlob [1]))) [2])) \<noteq>
   fst (hash demo_digest (Some ''hex'') (static_fromBlob [2]))"
  by (simp add: fromBlob_def static_fromBlob_def hash_def newClaim_def demo_digest_def
        toHex_def hexDigit_def)

section \<open>The proof data cache\<close>

text \<open>
  Claim C10. With an empty cache, \<open>getData\<close> decodes the blob and asks the proof for its
  data. When decoding fails (and the empty proof that \<open>getProof\<close> then returns has no
  data), or when the decoded proof has no data for the network, it returns \<open>null\<close> and
  leaves the claim as it was, the cache empty: the next call decodes again. When it
  returns proof data, the cache holds that data, and every later \<open>getData\<close> returns the
  same data and leaves the claim as it is, whatever the network argument, the proof
  codec or the blob then are: nothing is decoded again.
\<close>

theorem C10_getData_caches_success_only:
  "(cache_data c = None \<and> op_decode own (blob c) = Inl e \<and>
      op_getData own (op_new own) network = None \<longrightarrow> getData own network c = (None, c)) \<and>
   (cache_data c = None \<and> op_decode own (blob c) = Inr p \<and>
      op_getData own p network = None \<longrightarrow> getData own network c = (None, c)) \<and>
   (cache_data c = None \<longrightarrow>
      fst (getData own network c) = op_getData own (getProof own c) network) \<and>
   (fst (getData own network c) = Some d \<longrightarrow>
      cache_data (snd (getData own network c)) = Some d \<and>
      getData own' network' (snd (getData own network c)) =
        (Some d, snd (getData own network c)) \<and>
      getData own' network' (fromBlob (snd (getData own network c)) b) =
        (Some d, fromBlob (snd (getData own network c)) b))"
  by (auto simp: getData_def getProof_def toProof_def fromBlob_def split: option.splits)

text \<open>
  The empty blob does not decode: \<open>null\<close>, and the claim is unchanged. The blob \<open>01\<close>
  decodes but has no data for network 100: \<open>null\<close>, and the claim is unchanged, so that a
  call for network 0 decodes again and gives proof data (its \<open>version\<close> field records the
  network); a later call for network 5 returns the very same data.
\<close>

theorem C10_getData_caches_success_only_witness:
  "cache_data (static_fromBlob []) = None \<and>
   op_decode demo_ownership (blob (static_fromBlob [])) = Inl ProofDecodeError \<and>
   op_getData demo_ownership (op_new demo_ownership) 0 = None \<and>
   getData demo_ownership 0 (static_fromBlob []) = (None, static_fromBlob []) \<and>
   op_decode demo_ownership (blob (static_fromBlob [1])) = Inr [1] \<and>
   op_getData demo_ownership [1] 100 = None \<and>
   getData demo_ownership 100 (static_fromBlob [1]) = (None, static_fromBlob [1]) \<and>
   map_option data_version (fst (getData demo_ownership 0 (static_fromBlob [1]))) = Some 0 \<and>
   fst (getData demo_ownership 5 (snd (getData demo_ownership 0 (static_fromBlob [1])))) =
     fst (getData demo_ownership 0 (static_fromBlob [1]))"
proof -
  let ?c = "static_fromBlob [1]"
  let ?d = "\<lparr>nameHash = [1], nameRaw = [1], data_version = 0, data_hash = [1],
             data_value = 1000, fee = 100, weak = True, forked = False\<rparr>"
  have a: "cache_data (static_fromBlob []) = None"
    "op_decode demo_ownership (blob (static_fromBlob [])) = Inl ProofDecodeError"
    "op_getData demo_ownership (op_new demo_ownership) 0 = None"
    by (simp_all add: static_fromBlob_def fromBlob_def newClaim_def demo_ownership_def)
  have b: "cache_data ?c = None"
    "op_decode demo_ownership (blob ?c) = Inr [1]"
    "op_getData demo_ownership [1] 100 = None"
    by (simp_all add: static_fromBlob_def fromBlob_def newClaim_def demo_ownership_def)
  have g: "fst (getData demo_ownership 0 ?c) = Some ?d"
    by (simp add: static_fromBlob_def fromBlob_def newClaim_def demo_ownership_def
          getData_def getProof_def toProof_def)
  note t1 = C10_getData_caches_success_only
    [where c = "static_fromBlob []" and own = demo_ownership and e = ProofDecodeError
       and network = 0, THEN conjunct1]
  note t2 = C10_getData_caches_success_only
    [where c = ?c and own = demo_ownership and network = 0 and d = ?d
       and own' = demo_ownership and network' = 5 and b = "[]",
     THEN conjunct2, THEN conjunct2, THEN conjunct2]
  note t3 = C10_getData_caches_success_only
    [where c = ?c and own = demo_ownership and p = "[1]" and network = 100,
     THEN conjunct2, THEN conjunct1]
  from t1 a have n: "getData demo_ownership 0 (static_fromBlob []) = (None, static_fromBlob [])"
    by blast
  from t3 b have u: "getData demo_ownership 100 ?c = (None, ?c)"
    by blast
  from t2 g have "getData demo_ownership 5 (snd (getData demo_ownership 0 ?c)) =
      (Some ?d, snd (getData demo_ownership 0 ?c))"
    by blast
  then have l: "fst (getData demo_ownership 5 (snd (getData demo_ownership 0 ?c))) =
      fst (getData demo_ownership 0 ?c)"
    by (simp only: g fst_conv)
  have v: "map_option data_version (fst (getData demo_ownership 0 ?c)) = Some 0"
    by (simp add: g)
  show ?thesis using a b(2,3) n u l v by blast
qed

section \<open>The fee\<close>

text \<open>
  Claim C6. \<open>getFee(network)\<close> fails with an assertion error when \<open>getData(network)\<close>
  returns \<open>null\<close>; when \<open>getData\<close> returns proof data, \<open>getFee\<close> returns the \<open>fee\<close> field of
  that data. Either way the claim is left as \<open>getData\<close> leaves it.
\<close>

theorem C6_getFee:
  "(fst (getData own network c) = None \<longrightarrow> fst (getFee own network c) = Inl AssertionError) \<and>
   (fst (getData own network c) = Some d \<longrightarrow> fst (getFee own network c) = Inr (fee d)) \<and>
   snd (getFee own network c) = snd (getData own network c)"
  by (cases "getData own network c") (auto simp: getFee_def split: option.splits)

text \<open>The empty blob has no proof data; the proof data of the blob \<open>01\<close> has the fee 100.\<close>

theorem C6_getFee_witness:
  "fst (getData demo_ownership 0 (static_fromBlob [])) = None \<and>
   fst (getFee demo_ownership 0 (static_fromBlob [])) = Inl AssertionError \<and>
   map_option fee (fst (getData demo_ownership 0 (static_fromBlob [1]))) = Some 100 \<and>
   fst (getFee demo_ownership 0 (static_fromBlob [1])) = Inr 100"
proof -
  let ?d = "\<lparr>nameHash = [1], nameRaw = [1], data_version = 0, data_hash = [1],
             data_value = 1000, fee = 100, weak = True, forked = False\<rparr>"
  have g0: "fst (getData demo_ownership 0 (static_fromBlob [])) = None"
    by (simp add: static_fromBlob_def fromBlob_def newClaim_def demo_ownership_def
          getData_def getProof_def toProof_def)
  have g1: "fst (getData demo_ownership 0 (static_fromBlob [1])) = Some ?d"
    by (simp add: static_fromBlob_def fromBlob_def newClaim_def demo_ownership_def
          getData_def getProof_def toProof_def)
  from C6_getFee [of demo_ownership 0 "static_fromBlob []"] g0
  have f0: "fst (getFee demo_ownership 0 (static_fromBlob [])) = Inl AssertionError"
    by blast
  from C6_getFee [of demo_ownership 0 "static_fromBlob [1]" ?d] g1
  have "fst (getFee demo_ownership 0 (static_fromBlob [1])) = Inr (fee ?d)"
    by blast
  then have f1: "fst (getFee demo_ownership 0 (static_fromBlob [1])) = Inr 100"
    by simp
  have m: "map_option fee (fst (getData demo_ownership 0 (static_fromBlob [1]))) = Some 100"
    by (simp add: g1)
  show ?thesis using g0 f0 m f1 by blast
qed

section \<open>Lenient and strict proof accessors\<close>

text \<open>
  Claim C5. When the proof codec fails on the blob, \<open>getProof\<close> returns the empty proof
  \<open>new OwnershipProof()\<close> (it has no error outcome at all), and \<open>toProof\<close> fails with the
  codec's error. When the blob decodes, both return the decoded proof.
\<close>

theorem C5_getProof_toProof:
  "(op_decode own (blob c) = Inl e \<longrightarrow>
      getProof own c = op_new own \<and> toProof own c = Inl e) \<and>
   (op_decode own (blob c) = Inr p \<longrightarrow>
      getProof own c = p \<and> toProof own c = Inr p)"
  by (simp add: getProof_def toProof_def)

theorem C5_getProof_toProof_witness:
  "op_decode demo_ownership (blob (static_fromBlob [])) = Inl ProofDecodeError \<and>
   getProof demo_ownership (static_fromBlob []) = op_new demo_ownership \<and>
   toProof demo_ownership (static_fromBlob []) = Inl ProofDecodeError \<and>
   op_decode demo_ownership (blob (static_fromBlob [7])) = Inr [7] \<and>
   getProof demo_ownership (static_fromBlob [7]) = [7] \<and>
   toProof demo_ownership (static_fromBlob [7]) = Inr [7]"
proof -
  have d0: "op_decode demo_ownership (blob (static_fromBlob [])) = Inl ProofDecodeError"
    and d1: "op_decode demo_ownership (blob (static_fromBlob [7])) = Inr [7]"
    by (simp_all add: static_fromBlob_def fromBlob_def newClaim_def demo_ownership_def)
  from C5_getProof_toProof [of demo_ownership "static_fromBlob []" ProofDecodeError] d0
  have r0: "getProof demo_ownership (static_fromBlob []) = op_new demo_ownership \<and>
            toProof demo_ownership (static_fromBlob []) = Inl ProofDecodeError"
    by blast
  from C5_getProof_toProof [of demo_ownership "static_fromBlob [7]" _ "[7]"] d1
  have r1: "getProof demo_ownership (static_fromBlob [7]) = [7] \<and>
            toProof demo_ownership (static_fromBlob [7]) = Inr [7]"
    by blast
  show ?thesis using d0 d1 r0 r1 by blast
qed

section \<open>Weight and virtual size\<close>

lemma ceil_div_pos:
  fixes w s :: int
  assumes "0 < s"
  shows "(w + s - 1) div s = \<lceil>real_of_int w / real_of_int s\<rceil>"
proof -
  have m: "0 \<le> w mod s" "w mod s < s"
    using assms by simp_all
  have up: "(w + s - 1) div s = (if w mod s = 0 then w div s else w div s + 1)"
  proof (cases "w mod s = 0")
    case True
    have "s * (w div s) = w"
      using mult_div_mod_eq [of s w] True by simp
    then have "w + s - 1 = s * (w div s) + (s - 1)"
      by simp
    then have "(w + s - 1) div s = w div s"
      using assms by (intro int_div_pos_eq [where r = "s - 1"]) simp_all
    with True show ?thesis by simp
  next
    case False
    have "s * (w div s) + w mod s = w"
      by (rule mult_div_mod_eq)
    then have "w + s - 1 = s * (w div s + 1) + (w mod s - 1)"
      by (simp only: distrib_left mult_1_right)
    then have "(w + s - 1) div s = w div s + 1"
      using m False by (intro int_div_pos_eq [where r = "w mod s - 1"]) simp_all
    with False show ?thesis by simp
  qed
  have "\<lceil>real_of_int w / real_of_int s\<rceil> = - (- w div s)"
    by (rule ceiling_divide_eq_div)
  also have "\<dots> = (if w mod s = 0 then w div s else w div s + 1)"
    using assms by (simp add: zdiv_zminus1_eq_if)
  finally show ?thesis using up by simp
qed

lemma toInt32_id: "- (2 ^ 31) \<le> x \<Longrightarrow> x < 2 ^ 31 \<Longrightarrow> toInt32 x = x"
  by (simp add: toInt32_def)

text \<open>
  Claim C7. \<open>getWeight()\<close> is \<open>getSize()\<close>. For a positive scale factor, \<open>getVirtualSize()\<close>
  is the ceiling of the weight divided by the scale factor, as long as that ceiling is
  below \<open>2^31\<close>, the range of \<open>| 0\<close>; a \<open>Buffer\<close> is far too short to leave that range with
  the scale factor 4.
\<close>

theorem C7_weight_and_virtual_size:
  "getWeight c = getSize c \<and>
   (0 < scale \<and> \<lceil>real (getWeight c) / real_of_int scale\<rceil> < 2 ^ 31 \<longrightarrow>
      getVirtualSize scale c = \<lceil>real (getWeight c) / real_of_int scale\<rceil>)"
proof -
  have v: "getVirtualSize scale c = \<lceil>real (getWeight c) / real_of_int scale\<rceil>"
    if s: "0 < scale" and b: "\<lceil>real (getWeight c) / real_of_int scale\<rceil> < 2 ^ 31"
  proof -
    let ?a = "int (getWeight c) + scale - 1"
    have q: "?a div scale = \<lceil>real (getWeight c) / real_of_int scale\<rceil>"
      using ceil_div_pos [OF s, of "int (getWeight c)"] by simp
    have a0: "0 \<le> ?a" using s by simp
    then have q0: "0 \<le> ?a div scale" using s by (simp add: pos_imp_zdiv_nonneg_iff)
    have "sgn ?a * sgn scale * (\<bar>?a\<bar> div \<bar>scale\<bar>) = ?a div scale"
    proof (cases "?a = 0")
      case True
      then show ?thesis by (simp only: sgn_0 mult_zero_left div_0)
    next
      case False
      with a0 have "0 < ?a" by linarith
      then have "sgn ?a = 1" "\<bar>?a\<bar> = ?a" by simp_all
      moreover have "sgn scale = 1" "\<bar>scale\<bar> = scale" using s by simp_all
      ultimately show ?thesis by (simp only: mult_1)
    qed
    moreover have "scale \<noteq> 0" using s by simp
    ultimately have "quotInt32 ?a scale = toInt32 (?a div scale)"
      by (simp only: quotInt32_def if_False)
    also have "\<dots> = ?a div scale"
      using q0 b q by (intro toInt32_id) simp_all
    finally show ?thesis using q by (simp add: getVirtualSize_def)
  qed
  then show ?thesis by (simp add: getWeight_def)
qed

text \<open>A blob of nine bytes has the weight 10, and with the scale factor 4 the virtual size 3.\<close>

theorem C7_weight_and_virtual_size_witness:
  "(0::int) < 4 \<and>
   getWeight (static_fromBlob (replicate 9 0)) = 10 \<and>
   \<lceil>real (getWeight (static_fromBlob (replicate 9 0))) / real_of_int 4\<rceil> < 2 ^ 31 \<and>
   getVirtualSize 4 (static_fromBlob (replicate 9 0)) = 3"
proof -
  have w: "getWeight (static_fromBlob (replicate 9 0)) = 10"
    by (simp add: getWeight_def getSize_def sizeVarBytes_def sizeVarint_def
          static_fromBlob_def fromBlob_def)
  have c: "\<lceil>real (10::nat) / real_of_int 4\<rceil> = 3"
    by (simp add: ceiling_eq_iff)
  show ?thesis
    using C7_weight_and_virtual_size [of "static_fromBlob (replicate 9 0)" 4] w c by simp
qed

section \<open>The transaction of a claim\<close>

lemma statusFlags_cases:
  "statusFlags d = (if weak d then (if forked d then 3 else 1) else (if forked d then 2 else 0))"
  by (simp add: statusFlags_def Let_def)

text \<open>Bit 0 of the status byte is \<open>weak\<close>, bit 1 is \<open>forked\<close>, and no other bit is set.\<close>

lemma statusFlags_bits:
  "bit (statusFlags d) 0 = weak d \<and> bit (statusFlags d) 1 = forked d \<and>
   (\<forall>n. 2 \<le> n \<longrightarrow> \<not> bit (statusFlags d) n)"
proof -
  have b0: "\<not> bit (0 :: byte) n" for n by simp
  have b1: "bit (1 :: byte) n = (n = 0)" for n by (simp add: bit_1_iff)
  have b2: "bit (2 :: byte) n = (n = 1)" for n by (auto simp: bit_2_iff)
  have b3: "bit (3 :: byte) n = (n = 0 \<or> n = 1)" for n
  proof -
    have "(3 :: byte) = 1 OR 2" by simp
    then show ?thesis by (simp only: bit_or_iff b1 b2)
  qed
  show ?thesis
    by (cases "weak d"; cases "forked d")
       (simp_all only: statusFlags_cases if_True if_False b0 b1 b2 b3, auto)
qed

text \<open>
  Claim C4. When \<open>getData(network)\<close> gives proof data, \<open>toTX(network)\<close> returns a
  transaction with exactly two inputs, the placeholder \<open>new Input()\<close> and then an input
  whose witness holds the blob and nothing else, and exactly two outputs, the placeholder
  \<open>new Output()\<close> and then an output whose value is 0 when \<open>forked\<close> and \<open>value - fee\<close>
  otherwise, whose address has the version and the hash of the proof data, and whose
  covenant has the type \<open>CLAIM\<close> and the items \<open>nameHash\<close>, \<open>nameRaw\<close> and one status
  byte, in this order. Bit 0 of the status byte is set exactly when \<open>weak\<close>, bit 1 exactly
  when \<open>forked\<close>, and no other bit is set.
\<close>

theorem C4_toTX_shape:
  assumes "fst (getData own network c) = Some d"
  shows "fst (toTX own CLAIM network c) =
           Inr \<lparr>inputs = [newInput, \<lparr>witness = \<lparr>witness_items = [blob c]\<rparr>\<rparr>],
                outputs = [newOutput,
                  \<lparr>output_value = (if forked d then 0 else data_value d - fee d),
                   address = \<lparr>address_version = data_version d, address_hash = data_hash d\<rparr>,
                   covenant = \<lparr>covenant_type = CLAIM,
                               covenant_items = [nameHash d, nameRaw d, [statusFlags d]]\<rparr>\<rparr>]\<rparr> \<and>
         bit (statusFlags d) 0 = weak d \<and> bit (statusFlags d) 1 = forked d \<and>
         (\<forall>n. 2 \<le> n \<longrightarrow> \<not> bit (statusFlags d) n)"
proof -
  obtain c' where g: "getData own network c = (Some d, c')"
    using assms by (cases "getData own network c") auto
  have b: "blob c' = blob c"
    using g by (auto simp: getData_def split: option.splits)
  have "fst (toTX own CLAIM network c) =
           Inr \<lparr>inputs = [newInput, \<lparr>witness = \<lparr>witness_items = [blob c]\<rparr>\<rparr>],
                outputs = [newOutput,
                  \<lparr>output_value = (if forked d then 0 else data_value d - fee d),
                   address = \<lparr>address_version = data_version d, address_hash = data_hash d\<rparr>,
                   covenant = \<lparr>covenant_type = CLAIM,
                               covenant_items = [nameHash d, nameRaw d, [statusFlags d]]\<rparr>\<rparr>]\<rparr>"
    by (simp add: toTX_def g b Let_def newTX_def refreshTX_def newInput_def newOutput_def)
  then show ?thesis using statusFlags_bits [of d] by simp
qed

text \<open>
  Proof data with the value 1000, the fee 100, \<open>weak\<close> and not \<open>forked\<close>: the second output
  has the value 900 and the status byte \<open>01\<close>. The same amounts, \<open>forked\<close> and not \<open>weak\<close>:
  the value 0 and the status byte \<open>02\<close>.
\<close>

theorem C4_toTX_shape_witness:
  "fst (getData demo_ownership 7 (static_fromBlob [1, 9])) =
     Some \<lparr>nameHash = [1, 9], nameRaw = [1, 9], data_version = 7, data_hash = [1, 9],
           data_value = 1000, fee = 100, weak = True, forked = False\<rparr> \<and>
   fst (toTX demo_ownership 1 7 (static_fromBlob [1, 9])) =
     Inr \<lparr>inputs = [\<lparr>witness = \<lparr>witness_items = []\<rparr>\<rparr>,
                    \<lparr>witness = \<lparr>witness_items = [[1, 9]]\<rparr>\<rparr>],
          outputs = [\<lparr>output_value = 0,
                      address = \<lparr>address_version = 0, address_hash = []\<rparr>,
                      covenant = \<lparr>covenant_type = 0, covenant_items = []\<rparr>\<rparr>,
                     \<lparr>output_value = 900,
                      address = \<lparr>address_version = 7, address_hash = [1, 9]\<rparr>,
                      covenant = \<lparr>covenant_type = 1,
                                  covenant_items = [[1, 9], [1, 9], [1]]\<rparr>\<rparr>]\<rparr> \<and>
   fst (getData demo_ownership 7 (static_fromBlob [2, 9])) =
     Some \<lparr>nameHash = [2, 9], nameRaw = [2, 9], data_version = 7, data_hash = [2, 9],
           data_value = 1000, fee = 100, weak = False, forked = True\<rparr> \<and>
   fst (toTX demo_ownership 1 7 (static_fromBlob [2, 9])) =
     Inr \<lparr>inputs = [\<lparr>witness = \<lparr>witness_items = []\<rparr>\<rparr>,
                    \<lparr>witness = \<lparr>witness_items = [[2, 9]]\<rparr>\<rparr>],
          outputs = [\<lparr>output_value = 0,
                      address = \<lparr>address_version = 0, address_hash = []\<rparr>,
                      covenant = \<lparr>covenant_type = 0, covenant_items = []\<rparr>\<rparr>,
                     \<lparr>output_value = 0,
                      address = \<lparr>address_version = 7, address_hash = [2, 9]\<rparr>,
                      covenant = \<lparr>covenant_type = 1,
                                  covenant_items = [[2, 9], [2, 9], [2]]\<rparr>\<rparr>]\<rparr>"
proof -
  let ?d = "\<lparr>nameHash = [1, 9], nameRaw = [1, 9], data_version = 7, data_hash = [1, 9],
             data_value = 1000, fee = 100, weak = True, forked = False\<rparr>"
  let ?f = "\<lparr>nameHash = [2, 9], nameRaw = [2, 9], data_version = 7, data_hash = [2, 9],
             data_value = 1000, fee = 100, weak = False, forked = True\<rparr>"
  have g: "fst (getData demo_ownership 7 (static_fromBlob [1, 9])) = Some ?d"
    by (simp add: static_fromBlob_def fromBlob_def newClaim_def demo_ownership_def
          getData_def getProof_def toProof_def)
  have g': "fst (getData demo_ownership 7 (static_fromBlob [2, 9])) = Some ?f"
    by (simp add: static_fromBlob_def fromBlob_def newClaim_def demo_ownership_def
          getData_def getProof_def toProof_def)
  have b: "blob (static_fromBlob [1, 9]) = [1, 9]" "blob (static_fromBlob [2, 9]) = [2, 9]"
    by (simp_all add: static_fromBlob_def fromBlob_def)
  have f: "statusFlags ?d = 1" "statusFlags ?f = 2"
    by (simp_all add: statusFlags_def)
  show ?thesis
    using g g' C4_toTX_shape [OF g, of 1, THEN conjunct1]
      C4_toTX_shape [OF g', of 1, THEN conjunct1]
    by (simp add: b f newInput_def newOutput_def)
qed

end
